theory Spec2Isabelle
  imports Complex_Main "HOL-Library.AList"
begin

section \<open>Strings and numbers of the Python runtime\<close>

text \<open>
  The scraper of \<^verbatim>\<open>new_scrape.py\<close> is embedded as pure functions. Python strings are
  \<^typ>\<open>string\<close>; the model's characters are the ASCII ones, so \<^verbatim>\<open>\d\<close> is one of the ten
  ASCII digits. Python's \<^verbatim>\<open>None\<close>, \<^verbatim>\<open>str\<close>, \<^verbatim>\<open>int\<close> and \<^verbatim>\<open>float\<close> objects that
  end up in a column are the constructors of \<open>py_value\<close>. A float is represented by the
  exact decimal value of the literal it was parsed from: the rounding of \<^verbatim>\<open>float()\<close> to
  the nearest binary64 is left out.
\<close>

datatype py_value = PyNone | PyStr string | PyInt int | PyFloat rat

definition is_digit :: "char \<Rightarrow> bool" where
  "is_digit c = (c \<in> set ''0123456789'')"

definition digit_val :: "char \<Rightarrow> nat" where
  "digit_val c = of_char c - 48"

definition digits_to_nat :: "string \<Rightarrow> nat" where
  "digits_to_nat ds = foldl (\<lambda>acc c. 10 * acc + digit_val c) 0 ds"

definition digit_char :: "nat \<Rightarrow> char" where
  "digit_char d = ''0123456789'' ! d"

text \<open>\<^verbatim>\<open>str(n)\<close> of a natural number, as the f-strings of the trace lines format it.\<close>

function show_nat :: "nat \<Rightarrow> string" where
  "show_nat n = (if n < 10 then [digit_char n] else show_nat (n div 10) @ [digit_char (n mod 10)])"
  by pat_completeness auto
termination
  by (relation "measure id") auto

declare show_nat.simps [simp del]

text \<open>
  \<^verbatim>\<open>re.findall(r'\d+\.?\d*', text)\<close>: the matches from left to right, none overlapping.
  A match starts at a digit; \<^verbatim>\<open>\d+\<close> takes the whole run of digits, \<^verbatim>\<open>\.?\<close> a point
  that follows it, \<^verbatim>\<open>\d*\<close> the digits after the point. Every part after the first digit
  is optional, so the greedy choice never has to be undone.
\<close>

function findall_number :: "string \<Rightarrow> string list" where
  "findall_number [] = []"
| "findall_number (c # cs) =
     (if is_digit c then
        (let ds = c # takeWhile is_digit cs; r = dropWhile is_digit cs in
         (case r of
            [] \<Rightarrow> [ds]
          | d # r' \<Rightarrow>
              if d = CHR ''.''
              then (ds @ [d] @ takeWhile is_digit r') # findall_number (dropWhile is_digit r')
              else ds # findall_number r))
      else findall_number cs)"
  by pat_completeness auto
termination
proof (relation "measure length", goal_cases)
  case 1
  show ?case by simp
next
  case (2 c cs ds r d r')
  have "Suc (length r') = length (dropWhile is_digit cs)"
    using 2 by (metis length_Cons)
  then show ?case
    using length_dropWhile_le [of is_digit cs] length_dropWhile_le [of is_digit r']
    by simp
next
  case (3 c cs ds r d r')
  then show ?case
    using length_dropWhile_le [of is_digit cs] by simp
next
  case 4
  show ?case by simp
qed

declare findall_number.simps [simp del]

text \<open>
  \<^verbatim>\<open>int(s)\<close> on a decimal string. CPython (3.11, and the security releases of the older
  branches) refuses to convert a string of more than \<^verbatim>\<open>sys.get_int_max_str_digits()\<close>
  digits and raises \<^verbatim>\<open>ValueError\<close>; the default limit is 4300 and the value 0 switches
  the check off. The limit is the parameter \<open>maxd\<close>. Only strings of digits reach this
  call; anything else is reported as the \<^verbatim>\<open>ValueError\<close> of an invalid literal.
\<close>

definition py_int :: "nat \<Rightarrow> string \<Rightarrow> string + int" where
  "py_int maxd s =
     (if s = [] \<or> \<not> list_all is_digit s then Inl (''invalid literal for int() with base 10: '' @ s)
      else if maxd \<noteq> 0 \<and> maxd < length s
        then Inl ''Exceeds the limit for integer string conversion''
      else Inr (int (digits_to_nat s)))"

text \<open>
  \<^verbatim>\<open>float(s)\<close> on a string of the shape digits, point, digits (one of the two digit
  parts may be empty); anything else is reported as \<^verbatim>\<open>ValueError\<close>. No length limit
  applies to floats.
\<close>

definition py_float :: "string \<Rightarrow> string + rat" where
  "py_float s =
     (let ip = takeWhile (\<lambda>c. c \<noteq> CHR ''.'') s;
          fp = drop 1 (dropWhile (\<lambda>c. c \<noteq> CHR ''.'') s)
      in if list_all is_digit ip \<and> list_all is_digit fp \<and> ip @ fp \<noteq> []
         then Inr (of_nat (digits_to_nat (ip @ fp)) / 10 ^ length fp)
         else Inl (''could not convert string to float: '' @ s))"

text \<open>
  Lines 247-257, the branch of a numeric column:
  \<^verbatim>\<open>
  numbers = re.findall(r'\d+\.?\d*', text)
  if numbers:
      try:
          value = float(numbers[0]) if '.' in numbers[0] else int(numbers[0])
          data[col["name"]].append(value)
      except ValueError:
          data[col["name"]].append(text)
  else:
      data[col["name"]].append(None)
  \<close>
  \<open>numeric_value maxd text\<close> is the object appended.
\<close>

definition numeric_value :: "nat \<Rightarrow> string \<Rightarrow> py_value" where
  "numeric_value maxd text =
     (case findall_number text of
        [] \<Rightarrow> PyNone
      | n # _ \<Rightarrow>
          if CHR ''.'' \<in> set n
          then (case py_float n of Inr v \<Rightarrow> PyFloat v | Inl _ \<Rightarrow> PyStr text)
          else (case py_int maxd n of Inr v \<Rightarrow> PyInt v | Inl _ \<Rightarrow> PyStr text))"


section \<open>The parsed document and the libraries around it\<close>

text \<open>
  A parsed document (\<^verbatim>\<open>BeautifulSoup(..., 'html.parser')\<close>) is the list of its \<^verbatim>\<open>Tag\<close>
  objects in document order, which is the order \<^verbatim>\<open>find_all\<close> answers in. Of a tag the
  scraper reads its name, its \<^verbatim>\<open>class\<close> attribute (a list of tokens, \<open>None\<close> when the
  attribute is missing), its \<^verbatim>\<open>href\<close> attribute, its \<^verbatim>\<open>.text\<close> and
  \<^verbatim>\<open>get_text(strip=True)\<close>.
\<close>

record element =
  el_name :: string
  el_class :: "string list option"
  el_href :: "string option"
  el_text :: string
  get_text_strip :: string

type_synonym soup = "element list"

text \<open>A column dict of the form: keys \<^verbatim>\<open>name\<close>, \<^verbatim>\<open>tag\<close>, \<^verbatim>\<open>is_link\<close>, \<^verbatim>\<open>as_numeric\<close>.\<close>

record column =
  name :: string
  tag :: string
  is_link :: bool
  as_numeric :: bool

record response =
  status_code :: nat
  content_length :: nat
  content_soup :: soup

text \<open>
  What the function reads from outside itself: the module globals set by the sidebar
  (\<^verbatim>\<open>enable_debug\<close>, \<^verbatim>\<open>save_html\<close>) and the answers of the libraries whose code is not
  part of the repository. A library call that can raise answers \<open>Inl\<close> with the text of
  the exception (\<^verbatim>\<open>str(e)\<close>):
  \<^item> \<open>requests_get\<close>: \<^verbatim>\<open>requests.get(url, headers=headers, timeout=timeout)\<close>, the
    response with its body already parsed;
  \<^item> \<open>write_html\<close>: opening and writing the HTML file, \<open>Some\<close> the exception raised;
  \<^item> \<open>re_compile\<close>: \<^verbatim>\<open>re.compile(part)\<close> of a pattern the user typed, as the predicate
    \<^verbatim>\<open>pattern.search(s) is not None\<close>;
  \<^item> \<open>select\<close>: \<^verbatim>\<open>soup.select(css_selector)\<close>, the CSS engine;
  \<^item> \<open>urljoin\<close>: \<^verbatim>\<open>urllib.parse.urljoin\<close>;
  \<^item> \<open>int_max_str_digits\<close>: the interpreter's limit on \<^verbatim>\<open>int(str)\<close>.
\<close>

record env =
  enable_debug :: bool
  save_html :: bool
  int_max_str_digits :: nat
  requests_get :: "string \<Rightarrow> string + response"
  write_html :: "soup \<Rightarrow> string option"
  re_compile :: "string \<Rightarrow> string + (string \<Rightarrow> bool)"
  select :: "soup \<Rightarrow> string \<Rightarrow> string + element list"
  urljoin :: "string \<Rightarrow> string \<Rightarrow> string + string"

text \<open>\<^verbatim>\<open>' '.join(tokens)\<close>.\<close>

fun join_space :: "string list \<Rightarrow> string" where
  "join_space [] = []"
| "join_space [t] = t"
| "join_space (t # ts) = t @ '' '' @ join_space ts"

text \<open>
  How \<^verbatim>\<open>find_all\<close> matches a filter \<open>p\<close> against the multi-valued \<^verbatim>\<open>class\<close>
  attribute: some token satisfies it, or the tokens joined by single spaces do. A tag
  without the attribute matches no filter used here (the filters are non-empty strings,
  compiled patterns and one callable).
\<close>

definition class_matches :: "(string \<Rightarrow> bool) \<Rightarrow> element \<Rightarrow> bool" where
  "class_matches p e =
     (case el_class e of None \<Rightarrow> False | Some toks \<Rightarrow> list_ex p toks \<or> p (join_space toks))"

text \<open>\<^verbatim>\<open>soup.find_all(name, class_=...)\<close>.\<close>

definition find_all_class :: "soup \<Rightarrow> string \<Rightarrow> (string \<Rightarrow> bool) \<Rightarrow> element list" where
  "find_all_class soup nm p = filter (\<lambda>e. el_name e = nm \<and> class_matches p e) soup"

text \<open>
  \<^verbatim>\<open>re.compile(r"card|item|result").search(s)\<close>: no flag is given, so the three
  alternatives are compared letter for letter, at every position of \<open>s\<close>.
\<close>

fun search_literal :: "string \<Rightarrow> string \<Rightarrow> bool" where
  "search_literal w [] = (w = [])"
| "search_literal w (c # cs) = (take (length w) (c # cs) = w \<or> search_literal w cs)"

definition card_pattern_search :: "string \<Rightarrow> bool" where
  "card_pattern_search s =
     (search_literal ''card'' s \<or> search_literal ''item'' s \<or> search_literal ''result'' s)"

definition card_like_elements :: "soup \<Rightarrow> element list" where
  "card_like_elements soup = filter (class_matches card_pattern_search) soup"

text \<open>
  \<^verbatim>\<open>debug_page_content(soup, url)\<close>, lines 134-164. A \<^verbatim>\<open>Tag\<close> is always true, so
  \<^verbatim>\<open>title.text if title else ...\<close> tests for \<^verbatim>\<open>None\<close>. The last query hands a callable
  as \<^verbatim>\<open>attrs\<close>; \<^verbatim>\<open>find_all\<close> takes an \<^verbatim>\<open>attrs\<close> that is not a dict as a filter on
  \<^verbatim>\<open>class\<close>, so the callable receives strings, never a dict, and answers \<^verbatim>\<open>False\<close>.
\<close>

definition debug_page_content :: "soup \<Rightarrow> string \<Rightarrow> string list" where
  "debug_page_content soup url =
     (let title = List.find (\<lambda>e. el_name e = ''title'') soup;
          all_classes =
            remdups (concat (map (\<lambda>e. case el_class e of None \<Rightarrow> [] | Some toks \<Rightarrow> toks) soup));
          cards = card_like_elements soup;
          scripts = filter (\<lambda>e. el_name e = ''script'') soup;
          data_attrs = filter (class_matches (\<lambda>x. False)) soup
      in [''Page Title: '' @ (case title of Some t \<Rightarrow> el_text t | None \<Rightarrow> ''No title found''),
          ''Total unique CSS classes found: '' @ show_nat (length all_classes),
          ''Card-like elements found: '' @ show_nat (length cards),
          ''Script tags found: '' @ show_nat (length scripts),
          ''Elements with data attributes: '' @ show_nat (length data_attrs)])"


section \<open>Selector resolution and column extraction\<close>

text \<open>\<^verbatim>\<open>css_class.split('.')\<close>: the pieces between the points, empty pieces included.\<close>

fun split_dot :: "string \<Rightarrow> string list" where
  "split_dot [] = [[]]"
| "split_dot (c # cs) =
     (if c = CHR ''.'' then [] # split_dot cs
      else (case split_dot cs of [] \<Rightarrow> [[c]] | p # ps \<Rightarrow> (c # p) # ps))"

text \<open>
  Lines 220-223, the loop of Strategy 2 over \<^verbatim>\<open>class_parts\<close>. It starts from an empty
  \<^verbatim>\<open>elements\<close> and extends it, so the matches of the parts are concatenated in order. A
  part that is not a valid pattern makes \<^verbatim>\<open>re.compile\<close> raise; nothing inside the loop
  catches that.
\<close>

fun partial_elements :: "env \<Rightarrow> soup \<Rightarrow> string \<Rightarrow> string list \<Rightarrow> string + element list" where
  "partial_elements env soup tg [] = Inr []"
| "partial_elements env soup tg (part # parts) =
     (if part \<noteq> [] then
        (case re_compile env part of
           Inl msg \<Rightarrow> Inl msg
         | Inr p \<Rightarrow>
             (case partial_elements env soup tg parts of
                Inl msg \<Rightarrow> Inl msg
              | Inr es \<Rightarrow> Inr (find_all_class soup tg p @ es)))
      else partial_elements env soup tg parts)"

definition strategy1_line :: "nat \<Rightarrow> string" where
  "strategy1_line n = ''  Strategy 1 (exact class): '' @ show_nat n @ '' elements''"

definition strategy2_line :: "nat \<Rightarrow> string" where
  "strategy2_line n = ''  Strategy 2 (partial class): '' @ show_nat n @ '' elements''"

definition strategy3_line :: "nat \<Rightarrow> string" where
  "strategy3_line n = ''  Strategy 3 (CSS selector): '' @ show_nat n @ '' elements''"

definition selector_failed_line :: "string \<Rightarrow> string" where
  "selector_failed_line msg = ''  CSS selector failed: '' @ msg"

text \<open>
  Lines 210-233, the three strategies for one column. The answer is the final
  \<^verbatim>\<open>elements\<close> with the lines appended to \<^verbatim>\<open>debug_info\<close> on the way, or \<open>Inl\<close> the
  exception that left the block, with the lines appended before it.
\<close>

definition resolve_elements ::
  "env \<Rightarrow> soup \<Rightarrow> column \<Rightarrow> string \<Rightarrow> (string \<times> string list) + (element list \<times> string list)" where
  "resolve_elements env soup col css_class =
     (let elements1 = find_all_class soup (tag col) (\<lambda>v. v = css_class);
          trace1 = [strategy1_line (length elements1)]
      in case (if elements1 = [] \<and> CHR ''.'' \<in> set css_class
               then (case partial_elements env soup (tag col) (split_dot css_class) of
                       Inl msg \<Rightarrow> Inl (msg, trace1)
                     | Inr found \<Rightarrow>
                         Inr (elements1 @ found,
                              trace1 @ [strategy2_line (length (elements1 @ found))]))
               else Inr (elements1, trace1)) of
           Inl x \<Rightarrow> Inl x
         | Inr (elements2, trace2) \<Rightarrow>
             if elements2 = [] then
               (case select env soup (tag col @ ''.'' @ css_class) of
                  Inr elements3 \<Rightarrow> Inr (elements3, trace2 @ [strategy3_line (length elements3)])
                | Inl msg \<Rightarrow> Inr (elements2, trace2 @ [selector_failed_line msg]))
             else Inr (elements2, trace2))"

text \<open>
  Lines 238-259, the value one element contributes; \<open>Inl\<close> is an exception, which the
  handler of line 260 turns into an entry of \<^verbatim>\<open>errors\<close>. \<^verbatim>\<open>if href:\<close> is false for a
  missing and for an empty attribute.
\<close>

definition element_value :: "env \<Rightarrow> string \<Rightarrow> column \<Rightarrow> element \<Rightarrow> string + py_value" where
  "element_value env url col e =
     (if is_link col then
        (case el_href e of
           None \<Rightarrow> Inr PyNone
         | Some h \<Rightarrow>
             if h \<noteq> [] then
               (case urljoin env url h of Inl msg \<Rightarrow> Inl msg | Inr full_url \<Rightarrow> Inr (PyStr full_url))
             else Inr PyNone)
      else
        (let text = get_text_strip e in
         if as_numeric col then Inr (numeric_value (int_max_str_digits env) text)
         else Inr (PyStr text)))"

text \<open>
  \<^verbatim>\<open>data\<close> is a dict from column names to lists, kept in insertion order: an
  association list whose \<open>AList.update\<close> replaces a present key in place and puts a new
  one last. \<^verbatim>\<open>data[k].append(v)\<close> raises \<^verbatim>\<open>KeyError\<close> at a missing key, whose text is
  the quoted key (written here for keys without quotes or escapes).
\<close>

type_synonym data = "(string \<times> py_value list) list"

definition key_error :: "string \<Rightarrow> string" where
  "key_error k = [CHR 0x27] @ k @ [CHR 0x27]"

definition data_append :: "data \<Rightarrow> string \<Rightarrow> py_value \<Rightarrow> string + data" where
  "data_append d k v =
     (case map_of d k of
        None \<Rightarrow> Inl (key_error k)
      | Some vs \<Rightarrow> Inr (AList.update k (vs @ [v]) d))"

definition extraction_error :: "column \<Rightarrow> string \<Rightarrow> string" where
  "extraction_error col msg = ''Error extracting from '' @ name col @ '': '' @ msg"

text \<open>Lines 236-261, the loop over the elements found, on \<^verbatim>\<open>data\<close> and \<^verbatim>\<open>errors\<close>.\<close>

fun extract_elements ::
  "env \<Rightarrow> string \<Rightarrow> column \<Rightarrow> element list \<Rightarrow> data \<times> string list \<Rightarrow> data \<times> string list" where
  "extract_elements env url col [] st = st"
| "extract_elements env url col (e # es) (d, errors) =
     extract_elements env url col es
       (case element_value env url col e of
          Inl msg \<Rightarrow> (d, errors @ [extraction_error col msg])
        | Inr v \<Rightarrow>
            (case data_append d (name col) v of
               Inl msg \<Rightarrow> (d, errors @ [extraction_error col msg])
             | Inr d' \<Rightarrow> (d', errors)))"

record scrape_state =
  data_of :: data
  errors_of :: "string list"
  debug_info :: "string list"

text \<open>
  Lines 204-263, one turn of the loop over \<^verbatim>\<open>zip(columns, css_classes)\<close>. \<open>Inl\<close> is an
  exception on its way to the handler of line 287, with \<^verbatim>\<open>debug_info\<close> as it is then.
\<close>

definition column_step ::
  "env \<Rightarrow> soup \<Rightarrow> string \<Rightarrow> scrape_state \<Rightarrow> column \<times> string \<Rightarrow>
   (string \<times> string list) + scrape_state" where
  "column_step env soup url st p =
     (let col = fst p; css_class = snd p in
      if css_class = [] \<or> name col = [] then Inr st
      else
        (let dbg = debug_info st @ [''Looking for: '' @ tag col @ ''.'' @ css_class] in
         case resolve_elements env soup col css_class of
           Inl (msg, trace) \<Rightarrow> Inl (msg, dbg @ trace)
         | Inr (elements, trace) \<Rightarrow>
             (let (d, errs) = extract_elements env url col elements (data_of st, errors_of st) in
              case map_of d (name col) of
                None \<Rightarrow> Inl (key_error (name col), dbg @ trace)
              | Some vs \<Rightarrow>
                  Inr \<lparr>data_of = d, errors_of = errs,
                       debug_info = dbg @ trace @
                         [''  Final count for '' @ name col @ '': '' @ show_nat (length vs)]\<rparr>)))"

fun column_loop ::
  "env \<Rightarrow> soup \<Rightarrow> string \<Rightarrow> (column \<times> string) list \<Rightarrow> scrape_state \<Rightarrow>
   (string \<times> string list) + scrape_state" where
  "column_loop env soup url [] st = Inr st"
| "column_loop env soup url (p # ps) st =
     (case column_step env soup url st p of
        Inl x \<Rightarrow> Inl x
      | Inr st' \<Rightarrow> column_loop env soup url ps st')"

text \<open>Line 201: \<^verbatim>\<open>data = {col["name"]: [] for col in columns if col["name"]}\<close>.\<close>

definition initial_data :: "column list \<Rightarrow> data" where
  "initial_data columns =
     foldl (\<lambda>d col. if name col \<noteq> [] then AList.update (name col) [] d else d) [] columns"


section \<open>Table assembly and \<^verbatim>\<open>scrape_with_requests\<close>\<close>

text \<open>
  The functions return the triple \<^verbatim>\<open>(df, errors, debug_info)\<close>. The data frame is the
  dict it is built from: the columns in order, each with its values.
\<close>

type_synonym dataframe = "(string \<times> py_value list) list"

type_synonym result = "dataframe option \<times> string list \<times> string list"

text \<open>
  Line 266: \<^verbatim>\<open>not any(data.values()) or all(len(v) == 0 for v in data.values())\<close>; a list
  is true when it is not empty.
\<close>

definition no_data :: "data \<Rightarrow> bool" where
  "no_data d =
     (\<not> list_ex (\<lambda>v. v \<noteq> []) (map snd d) \<or> list_all (\<lambda>v. length v = 0) (map snd d))"

text \<open>Lines 270-273, the loop that computes \<^verbatim>\<open>max_length\<close>.\<close>

definition max_length :: "data \<Rightarrow> nat" where
  "max_length d =
     foldl (\<lambda>m col_data. if length col_data > m then length col_data else m) 0 (map snd d)"

text \<open>Lines 279-282, the loop that pads the shorter columns.\<close>

definition pad_columns :: "nat \<Rightarrow> data \<Rightarrow> data" where
  "pad_columns m d =
     map (\<lambda>(col_name, vs).
            (col_name, if length vs < m then vs @ replicate (m - length vs) PyNone else vs)) d"

text \<open>Lines 265-285, from the check for empty data to the data frame.\<close>

definition assemble :: "scrape_state \<Rightarrow> result" where
  "assemble st =
     (if no_data (data_of st)
      then (None, [''No data found with the specified selectors''], debug_info st)
      else if max_length (data_of st) = 0
      then (None, [''No data extracted''], debug_info st)
      else (Some (pad_columns (max_length (data_of st)) (data_of st)), errors_of st, debug_info st))"

text \<open>Lines 200-285: \<^verbatim>\<open>data\<close>, the loop over the columns, the assembly.\<close>

definition extract_data ::
  "env \<Rightarrow> soup \<Rightarrow> string \<Rightarrow> column list \<Rightarrow> string list \<Rightarrow> string list \<Rightarrow>
   (string \<times> string list) + scrape_state" where
  "extract_data env soup url columns css_classes dbg =
     column_loop env soup url (zip columns css_classes)
       \<lparr>data_of = initial_data columns, errors_of = [], debug_info = dbg\<rparr>"

definition critical_error :: "string \<Rightarrow> string" where
  "critical_error msg = ''Critical error: '' @ msg"

definition extract_and_assemble ::
  "env \<Rightarrow> soup \<Rightarrow> string \<Rightarrow> column list \<Rightarrow> string list \<Rightarrow> string list \<Rightarrow> result" where
  "extract_and_assemble env soup url columns css_classes dbg =
     (case extract_data env soup url columns css_classes dbg of
        Inl (msg, dbg') \<Rightarrow> (None, [critical_error msg], dbg')
      | Inr st \<Rightarrow> assemble st)"

text \<open>
  \<^verbatim>\<open>scrape_with_requests(url, columns, css_classes)\<close>, lines 166-288. Every exception
  that leaves the \<^verbatim>\<open>try\<close> block ends in the handler of line 287, which returns
  \<^verbatim>\<open>debug_info\<close> as far as it was written.
\<close>

definition scrape_with_requests :: "env \<Rightarrow> string \<Rightarrow> column list \<Rightarrow> string list \<Rightarrow> result" where
  "scrape_with_requests env url columns css_classes =
     (case requests_get env url of
        Inl msg \<Rightarrow> (None, [critical_error msg], [])
      | Inr resp \<Rightarrow>
          (let dbg1 = [''HTTP Status: '' @ show_nat (status_code resp),
                       ''Content Length: '' @ show_nat (content_length resp) @ '' bytes'']
           in if status_code resp \<noteq> 200
              then (None, [''HTTP Error: '' @ show_nat (status_code resp)], dbg1)
              else
                (let soup = content_soup resp;
                     dbg2 = dbg1 @ (if enable_debug env then debug_page_content soup url else [])
                 in case (if save_html env then write_html env soup else None) of
                      Some msg \<Rightarrow> (None, [critical_error msg], dbg2)
                    | None \<Rightarrow>
                        extract_and_assemble env soup url columns css_classes
                          (dbg2 @ (if save_html env then [''HTML saved to file''] else [])))))"

section \<open>\<^verbatim>\<open>scrape_with_selenium\<close>\<close>

text \<open>
  The browser is what its calls answer: \<open>Some\<close>/\<open>Inl\<close> is the text of the exception a
  call raised. \<open>page_source\<close> gives the length of the source and the document parsed
  from it. The calls made on the driver, and \<^verbatim>\<open>time.sleep(wait_time)\<close> between them,
  are recorded in order, so that one can say whether \<^verbatim>\<open>driver.quit()\<close> was called.
\<close>

record page =
  page_length :: nat
  page_soup :: soup

record driver =
  driver_get :: "string \<Rightarrow> string option"
  driver_title :: "string + string"
  driver_page_source :: "string + page"
  driver_quit :: "string option"

record browser =
  selenium_available :: bool
  headless :: bool
  wait_time :: nat
  webdriver_chrome :: "bool \<Rightarrow> string + driver"

datatype driver_call = Get string | Title | Sleep nat | PageSource | Quit

text \<open>
  \<^verbatim>\<open>setup_selenium_driver(headless)\<close>, lines 113-132; the message it shows in the page
  when Chrome does not start is not part of what it returns.
\<close>

definition setup_selenium_driver :: "browser \<Rightarrow> bool \<Rightarrow> driver option" where
  "setup_selenium_driver b hl =
     (if \<not> selenium_available b then None
      else (case webdriver_chrome b hl of Inl msg \<Rightarrow> None | Inr d \<Rightarrow> Some d))"

text \<open>
  Line 318 calls \<^verbatim>\<open>scrape_with_requests_logic(soup, url, columns, css_classes,
  debug_info)\<close>. The parameter \<open>g\<close> below is what that global name is bound to when the
  call is evaluated: \<open>None\<close> when the module binds no such name, and the call raises
  \<^verbatim>\<open>NameError\<close>. A bound function may itself raise, with \<^verbatim>\<open>debug_info\<close> as it left it.
\<close>

type_synonym logic =
  "soup \<Rightarrow> string \<Rightarrow> column list \<Rightarrow> string list \<Rightarrow> string list \<Rightarrow> (string \<times> string list) + result"

definition selenium_error :: "string \<Rightarrow> string" where
  "selenium_error msg = ''Selenium error: '' @ msg"

definition name_error :: "string \<Rightarrow> string" where
  "name_error n = ''name '' @ [CHR 0x27] @ n @ [CHR 0x27] @ '' is not defined''"

text \<open>Lines 303-321, the \<^verbatim>\<open>try\<close> block after the driver exists, with its handler.\<close>

definition selenium_body ::
  "logic option \<Rightarrow> nat \<Rightarrow> driver \<Rightarrow> string \<Rightarrow> column list \<Rightarrow> string list \<Rightarrow>
   result \<times> driver_call list" where
  "selenium_body g wait d url columns css_classes =
     (let dbg0 = [''Chrome driver initialized''] in
      case driver_get d url of
        Some msg \<Rightarrow> ((None, [selenium_error msg], dbg0), [Get url])
      | None \<Rightarrow>
          (case driver_title d of
             Inl msg \<Rightarrow> ((None, [selenium_error msg], dbg0), [Get url, Title])
           | Inr t \<Rightarrow>
               (let dbg1 = dbg0 @ [''Page loaded: '' @ t] in
                case driver_page_source d of
                  Inl msg \<Rightarrow>
                    ((None, [selenium_error msg], dbg1), [Get url, Title, Sleep wait, PageSource])
                | Inr p \<Rightarrow>
                    (let dbg2 = dbg1 @ [''Page source length: '' @ show_nat (page_length p)
                                        @ '' characters''];
                         calls = [Get url, Title, Sleep wait, PageSource]
                     in case g of
                          None \<Rightarrow>
                            ((None, [selenium_error (name_error ''scrape_with_requests_logic'')],
                              dbg2), calls)
                        | Some f \<Rightarrow>
                            (case f (page_soup p) url columns css_classes dbg2 of
                               Inl (msg, dbg') \<Rightarrow> ((None, [selenium_error msg], dbg'), calls)
                             | Inr r \<Rightarrow> (r, calls))))))"

text \<open>
  \<^verbatim>\<open>scrape_with_selenium(url, columns, css_classes)\<close>, lines 290-324, in a module where
  the global \<^verbatim>\<open>scrape_with_requests_logic\<close> is bound to \<open>g\<close>. The \<^verbatim>\<open>finally\<close> clause calls
  \<^verbatim>\<open>driver.quit()\<close>; an exception of that call replaces the return value (\<open>Inl\<close>).
\<close>

definition scrape_with_selenium_in ::
  "logic option \<Rightarrow> browser \<Rightarrow> string \<Rightarrow> column list \<Rightarrow> string list \<Rightarrow>
   (string + result) \<times> driver_call list" where
  "scrape_with_selenium_in g b url columns css_classes =
     (if \<not> selenium_available b then (Inr (None, [''Selenium not available''], []), [])
      else
        (case setup_selenium_driver b (headless b) of
           None \<Rightarrow> (Inr (None, [''Failed to setup Chrome driver''], []), [])
         | Some d \<Rightarrow>
             (let (r, calls) = selenium_body g (wait_time b) d url columns css_classes in
              case driver_quit d of
                None \<Rightarrow> (Inr r, calls @ [Quit])
              | Some msg \<Rightarrow> (Inl msg, calls @ [Quit]))))"

text \<open>
  The module as written: \<^verbatim>\<open>scrape_with_requests_logic\<close> occurs on line 318 only, and
  nothing defines or imports it.
\<close>

definition module_scrape_with_requests_logic :: "logic option" where
  "module_scrape_with_requests_logic = None"

definition scrape_with_selenium ::
  "browser \<Rightarrow> string \<Rightarrow> column list \<Rightarrow> string list \<Rightarrow> (string + result) \<times> driver_call list" where
  "scrape_with_selenium = scrape_with_selenium_in module_scrape_with_requests_logic"


section \<open>Notions used to state the properties\<close>

text \<open>
  The first match of the pattern of line 249, described without the scan: skip to the
  first digit, take the run of digits, and a point with the digits after it if the run
  is followed by a point.
\<close>

definition leftmost_number :: "string \<Rightarrow> string option" where
  "leftmost_number s =
     (let t = dropWhile (\<lambda>c. \<not> is_digit c) s;
          ip = takeWhile is_digit t;
          r = dropWhile is_digit t
      in if t = [] then None
         else if take 1 r = ''.'' then Some (ip @ ''.'' @ takeWhile is_digit (drop 1 r))
         else Some ip)"

text \<open>
  The pattern in the words of the specification, "optional digits, optional single
  decimal point, at least one digit", as a test on a whole string.
\<close>

definition spec_number_pattern :: "string \<Rightarrow> bool" where
  "spec_number_pattern m =
     (let r = dropWhile is_digit m
      in (r = [] \<and> m \<noteq> []) \<or> (take 1 r = ''.'' \<and> drop 1 r \<noteq> [] \<and> list_all is_digit (drop 1 r)))"

text \<open>The strings the pattern of line 249 can match.\<close>

definition number_shape :: "string \<Rightarrow> bool" where
  "number_shape n \<longleftrightarrow>
     (\<exists>ip fp. ip \<noteq> [] \<and> list_all is_digit ip \<and> list_all is_digit fp \<and>
        (n = ip \<or> n = ip @ CHR ''.'' # fp))"

text \<open>
  An element one of whose class tokens contains \<^verbatim>\<open>card\<close>, \<^verbatim>\<open>item\<close> or \<^verbatim>\<open>result\<close>,
  letter for letter.
\<close>

definition has_card_token :: "element \<Rightarrow> bool" where
  "has_card_token e \<longleftrightarrow>
     (\<exists>toks. el_class e = Some toks \<and>
        (\<exists>t \<in> set toks. \<exists>p q. t = p @ ''card'' @ q \<or> t = p @ ''item'' @ q \<or> t = p @ ''result'' @ q))"

text \<open>A status code of the class 2xx.\<close>

definition is_2xx :: "nat \<Rightarrow> bool" where
  "is_2xx code = (200 \<le> code \<and> code < 300)"

section \<open>A sample page\<close>

text \<open>
  A small document and an environment to run the functions on: a regular-expression
  engine that is asked for patterns without special characters only (such a pattern is
  found where it occurs), a CSS engine that finds nothing, a \<^verbatim>\<open>urljoin\<close> for absolute
  paths on a host.
\<close>

definition title_element :: element where
  "title_element =
     \<lparr>el_name = ''title'', el_class = None, el_href = None,
      el_text = ''Scores'', get_text_strip = ''Scores''\<rparr>"

definition score_element :: element where
  "score_element =
     \<lparr>el_name = ''div'', el_class = Some [''card''], el_href = None,
      el_text = '' Score: 42 pts '', get_text_strip = ''Score: 42 pts''\<rparr>"

definition rating_element :: element where
  "rating_element =
     \<lparr>el_name = ''div'', el_class = Some [''card'', ''wide''], el_href = None,
      el_text = ''Rating: 3.5/5'', get_text_strip = ''Rating: 3.5/5''\<rparr>"

definition capital_element :: element where
  "capital_element =
     \<lparr>el_name = ''div'', el_class = Some [''Card''], el_href = None,
      el_text = ''No digits here'', get_text_strip = ''No digits here''\<rparr>"

definition link_element :: element where
  "link_element =
     \<lparr>el_name = ''a'', el_class = Some [''more''], el_href = Some ''/abstract/123'',
      el_text = ''more'', get_text_strip = ''more''\<rparr>"

definition sample_soup :: soup where
  "sample_soup = [title_element, score_element, rating_element, capital_element, link_element]"

definition sample_response :: response where
  "sample_response = \<lparr>status_code = 200, content_length = 512, content_soup = sample_soup\<rparr>"

definition sample_env :: env where
  "sample_env =
     \<lparr>enable_debug = False, save_html = False, int_max_str_digits = 4300,
      requests_get = (\<lambda>u. Inr sample_response),
      write_html = (\<lambda>s. None),
      re_compile = (\<lambda>p. Inr (search_literal p)),
      select = (\<lambda>s sel. Inr []),
      urljoin = (\<lambda>base h. Inr (''https://esc365.escardio.org'' @ h))\<rparr>"

definition sample_url :: string where
  "sample_url = ''https://esc365.escardio.org/x''"

definition score_column :: column where
  "score_column = \<lparr>name = ''Score'', tag = ''div'', is_link = False, as_numeric = True\<rparr>"

definition unset_column :: column where
  "unset_column = \<lparr>name = ''Column 2'', tag = ''div'', is_link = False, as_numeric = False\<rparr>"

text \<open>A response of status 204, and the environment that receives it.\<close>

definition no_content_env :: env where
  "no_content_env =
     sample_env\<lparr>requests_get :=
       (\<lambda>u. Inr \<lparr>status_code = 204, content_length = 0, content_soup = []\<rparr>)\<rparr>"

text \<open>An environment in which the request fails on the way.\<close>

definition offline_env :: env where
  "offline_env = sample_env\<lparr>requests_get := (\<lambda>u. Inl ''Connection refused'')\<rparr>"

definition sample_driver :: driver where
  "sample_driver =
     \<lparr>driver_get = (\<lambda>u. None), driver_title = Inr ''Scores'',
      driver_page_source = Inr \<lparr>page_length = 512, page_soup = sample_soup\<rparr>,
      driver_quit = None\<rparr>"

definition sample_browser :: browser where
  "sample_browser =
     \<lparr>selenium_available = True, headless = True, wait_time = 10,
      webdriver_chrome = (\<lambda>h. Inr sample_driver)\<rparr>"

section \<open>Matches of the number pattern\<close>

lemma is_digit_not_dot: "is_digit c \<Longrightarrow> c \<noteq> CHR ''.''"
  by (auto simp: is_digit_def)

lemma takeWhile_digits: "list_all is_digit (takeWhile is_digit xs)"
  by (induction xs) auto

lemma digits_no_dot: "list_all is_digit ds \<Longrightarrow> CHR ''.'' \<notin> set ds"
  by (induction ds) (auto dest: is_digit_not_dot)

lemma findall_number_shape: "n \<in> set (findall_number s) \<Longrightarrow> number_shape n"
proof (induction s rule: findall_number.induct)
  case 1
  then show ?case by (simp add: findall_number.simps)
next
  case (2 c cs)
  show ?case
  proof (cases "is_digit c")
    case False
    with 2 show ?thesis by (simp add: findall_number.simps)
  next
    case True
    let ?ds = "c # takeWhile is_digit cs"
    have ds: "?ds \<noteq> []" "list_all is_digit ?ds"
      using True by (simp_all add: takeWhile_digits)
    show ?thesis
    proof (cases "dropWhile is_digit cs")
      case Nil
      with "2.prems" True have "n = ?ds" by (simp add: findall_number.simps)
      with ds show ?thesis unfolding number_shape_def by blast
    next
      case (Cons d r')
      show ?thesis
      proof (cases "d = CHR ''.''")
        case dot: True
        from "2.prems" True Cons dot have
          "n = ?ds @ CHR ''.'' # takeWhile is_digit r' \<or> n \<in> set (findall_number (dropWhile is_digit r'))"
          by (simp add: findall_number.simps)
        then show ?thesis
        proof
          assume "n = ?ds @ CHR ''.'' # takeWhile is_digit r'"
          with ds takeWhile_digits [of r'] show ?thesis unfolding number_shape_def by blast
        next
          assume "n \<in> set (findall_number (dropWhile is_digit r'))"
          with "2.IH"(1) [OF True refl refl Cons dot] show ?thesis by simp
        qed
      next
        case nodot: False
        from "2.prems" True Cons nodot have
          "n = ?ds \<or> n \<in> set (findall_number (dropWhile is_digit cs))"
          by (simp add: findall_number.simps)
        then show ?thesis
        proof
          assume "n = ?ds"
          with ds show ?thesis unfolding number_shape_def by blast
        next
          assume "n \<in> set (findall_number (dropWhile is_digit cs))"
          with "2.IH"(2) [OF True refl refl Cons nodot] show ?thesis by simp
        qed
      qed
    qed
  qed
qed

lemma takeWhile_no_dot_digits:
  "list_all is_digit ip \<Longrightarrow> takeWhile (\<lambda>c. c \<noteq> CHR ''.'') (ip @ CHR ''.'' # fp) = ip"
  by (induction ip) (auto dest: is_digit_not_dot)

lemma dropWhile_no_dot_digits:
  "list_all is_digit ip \<Longrightarrow> dropWhile (\<lambda>c. c \<noteq> CHR ''.'') (ip @ CHR ''.'' # fp) = CHR ''.'' # fp"
  by (induction ip) (auto dest: is_digit_not_dot)

lemma py_float_shape:
  assumes "number_shape n" "CHR ''.'' \<in> set n"
  shows "\<exists>v. py_float n = Inr v"
proof -
  from assms obtain ip fp where s: "ip \<noteq> []" "list_all is_digit ip" "list_all is_digit fp"
    "n = ip @ CHR ''.'' # fp"
    unfolding number_shape_def using digits_no_dot by blast
  show ?thesis
    using s by (simp add: py_float_def takeWhile_no_dot_digits dropWhile_no_dot_digits)
qed

lemma py_int_shape:
  assumes "number_shape n" "CHR ''.'' \<notin> set n"
  shows "py_int maxd n = (if maxd \<noteq> 0 \<and> maxd < length n
           then Inl ''Exceeds the limit for integer string conversion''
           else Inr (int (digits_to_nat n)))"
proof -
  from assms obtain ip where "ip \<noteq> []" "list_all is_digit ip" "n = ip"
    unfolding number_shape_def by auto
  then show ?thesis by (simp add: py_int_def)
qed

lemma findall_number_skip:
  "findall_number s = findall_number (dropWhile (\<lambda>c. \<not> is_digit c) s)"
  by (induction s) (auto simp: findall_number.simps)

lemma findall_number_digit:
  assumes "is_digit c"
  shows "(case findall_number (c # cs) of [] \<Rightarrow> None | n # _ \<Rightarrow> Some n) = leftmost_number (c # cs)"
proof (cases "dropWhile is_digit cs")
  case Nil
  have "findall_number (c # cs) = [c # takeWhile is_digit cs]"
    by (subst findall_number.simps) (simp add: assms Nil)
  moreover have "leftmost_number (c # cs) = Some (c # takeWhile is_digit cs)"
    by (simp add: leftmost_number_def assms Nil)
  ultimately show ?thesis by simp
next
  case (Cons d r')
  show ?thesis
  proof (cases "d = CHR ''.''")
    case True
    have "findall_number (c # cs) =
        ((c # takeWhile is_digit cs) @ [d] @ takeWhile is_digit r') # findall_number (dropWhile is_digit r')"
      by (subst findall_number.simps) (simp add: assms Cons True)
    moreover have "leftmost_number (c # cs) = Some ((c # takeWhile is_digit cs) @ [d] @ takeWhile is_digit r')"
      by (simp add: leftmost_number_def assms Cons True)
    ultimately show ?thesis by simp
  next
    case False
    have "findall_number (c # cs) = (c # takeWhile is_digit cs) # findall_number (dropWhile is_digit cs)"
      by (subst findall_number.simps) (simp add: assms Cons False)
    moreover have "leftmost_number (c # cs) = Some (c # takeWhile is_digit cs)"
      by (simp add: leftmost_number_def assms Cons False)
    ultimately show ?thesis by simp
  qed
qed

lemma findall_number_first:
  "(case findall_number s of [] \<Rightarrow> None | n # _ \<Rightarrow> Some n) = leftmost_number s"
proof (cases "dropWhile (\<lambda>c. \<not> is_digit c) s")
  case Nil
  have "findall_number s = []"
    by (subst findall_number_skip) (simp add: Nil findall_number.simps)
  moreover have "leftmost_number s = None"
    by (simp add: leftmost_number_def Nil)
  ultimately show ?thesis by simp
next
  case (Cons c cs)
  then have d: "is_digit c"
    using hd_dropWhile [of "\<lambda>c. \<not> is_digit c" s] by auto
  have "leftmost_number s = leftmost_number (c # cs)"
    by (simp add: leftmost_number_def Cons d)
  moreover have "findall_number s = findall_number (c # cs)"
    by (subst findall_number_skip) (simp add: Cons)
  ultimately show ?thesis
    using findall_number_digit [OF d, of cs] by simp
qed

lemma findall_number_digits:
  assumes "ds \<noteq> []" "list_all is_digit ds"
  shows "findall_number ds = [ds]"
proof -
  from assms obtain c cs where ds: "ds = c # cs" "is_digit c" "list_all is_digit cs"
    by (cases ds) auto
  have dw: "dropWhile is_digit cs = []" and tw: "takeWhile is_digit cs = cs"
    using ds(3) by (simp_all add: list_all_iff)
  show ?thesis
    unfolding ds(1) by (subst findall_number.simps) (simp add: ds(2) dw tw)
qed

text \<open>The first match is where the text says it is: after a stretch without digits.\<close>

lemma leftmost_number_position:
  assumes "leftmost_number s = Some n"
  shows "\<exists>pre post. s = pre @ n @ post \<and> \<not> list_ex is_digit pre"
proof -
  let ?pre = "takeWhile (\<lambda>c. \<not> is_digit c) s"
  let ?t = "dropWhile (\<lambda>c. \<not> is_digit c) s"
  let ?r = "dropWhile is_digit ?t"
  have s: "s = ?pre @ ?t" by simp
  have pre: "\<not> list_ex is_digit ?pre"
    by (auto simp: list_ex_iff dest: set_takeWhileD)
  have t: "?t = takeWhile is_digit ?t @ ?r" by simp
  show ?thesis
  proof (cases "take 1 ?r = ''.''")
    case True
    then obtain r' where r: "?r = CHR ''.'' # r'"
      by (cases ?r) auto
    have n: "n = takeWhile is_digit ?t @ ''.'' @ takeWhile is_digit r'"
      using assms True r by (auto simp: leftmost_number_def Let_def split: if_splits)
    have "?t = n @ dropWhile is_digit r'"
      using t r n by (metis append.assoc append_Cons append_Nil takeWhile_dropWhile_id)
    with s pre show ?thesis by metis
  next
    case False
    have n: "n = takeWhile is_digit ?t"
      using assms False by (auto simp: leftmost_number_def Let_def split: if_splits)
    with t have "?t = n @ ?r" by simp
    with s pre show ?thesis by metis
  qed
qed

lemma numeric_value_cases:
  "numeric_value maxd s =
     (case leftmost_number s of
        None \<Rightarrow> PyNone
      | Some n \<Rightarrow>
          if CHR ''.'' \<in> set n
          then (case py_float n of Inr v \<Rightarrow> PyFloat v | Inl _ \<Rightarrow> PyStr s)
          else (case py_int maxd n of Inr v \<Rightarrow> PyInt v | Inl _ \<Rightarrow> PyStr s))"
  by (cases "findall_number s") (simp_all add: numeric_value_def findall_number_first [symmetric])

lemma leftmost_number_shape: "leftmost_number s = Some n \<Longrightarrow> number_shape n"
  using findall_number_shape [of n s]
  by (cases "findall_number s") (simp_all add: findall_number_first [symmetric])

lemma numeric_examples:
  "numeric_value 4300 ''Score: 42 pts'' = PyInt 42"
  "numeric_value 4300 ''Rating: 3.5/5'' = PyFloat (7 / 2)"
  "numeric_value 4300 ''No digits here'' = PyNone"
  by (simp_all add: numeric_value_def findall_number.simps is_digit_def py_int_def py_float_def
      digits_to_nat_def digit_val_def)

lemma leftmost_score: "leftmost_number ''Score: 42 pts'' = Some ''42''"
  by (simp add: leftmost_number_def is_digit_def)

section \<open>Numeric columns\<close>

text \<open>
  Claim C2, as the code has it. For an element of a numeric column that is not a link
  column, the value appended is decided by the first match of the pattern of line 249,
  which is one or more digits, an optional point, then optional digits: the match
  begins at the first digit of the text. With no digit in the text the value is
  \<^verbatim>\<open>None\<close>. A match with a point is parsed by \<^verbatim>\<open>float\<close>, which succeeds. A match without
  a point that is within the interpreter's limit on integer strings is parsed by
  \<^verbatim>\<open>int\<close>. The three texts of the specification give 42, 3.5 and \<^verbatim>\<open>None\<close>.
\<close>

theorem numeric_column_value:
  assumes "\<not> is_link col" and "as_numeric col"
  shows "element_value env url col e =
           Inr (numeric_value (int_max_str_digits env) (get_text_strip e)) \<and>
         (case leftmost_number (get_text_strip e) of
            None \<Rightarrow> element_value env url col e = Inr PyNone
          | Some n \<Rightarrow>
              (\<exists>pre post. get_text_strip e = pre @ n @ post \<and> \<not> list_ex is_digit pre) \<and>
              (if CHR ''.'' \<in> set n
               then \<exists>v. py_float n = Inr v \<and> element_value env url col e = Inr (PyFloat v)
               else int_max_str_digits env = 0 \<or> length n \<le> int_max_str_digits env \<longrightarrow>
                    element_value env url col e = Inr (PyInt (int (digits_to_nat n))))) \<and>
         numeric_value 4300 ''Score: 42 pts'' = PyInt 42 \<and>
         numeric_value 4300 ''Rating: 3.5/5'' = PyFloat (7 / 2) \<and>
         numeric_value 4300 ''No digits here'' = PyNone"
proof -
  let ?t = "get_text_strip e" and ?m = "int_max_str_digits env"
  have ev: "element_value env url col e = Inr (numeric_value ?m ?t)"
    using assms by (simp add: element_value_def)
  have "case leftmost_number ?t of
            None \<Rightarrow> element_value env url col e = Inr PyNone
          | Some n \<Rightarrow>
              (\<exists>pre post. ?t = pre @ n @ post \<and> \<not> list_ex is_digit pre) \<and>
              (if CHR ''.'' \<in> set n
               then \<exists>v. py_float n = Inr v \<and> element_value env url col e = Inr (PyFloat v)
               else ?m = 0 \<or> length n \<le> ?m \<longrightarrow>
                    element_value env url col e = Inr (PyInt (int (digits_to_nat n))))"
  proof (cases "leftmost_number ?t")
    case None
    then show ?thesis using ev by (simp add: numeric_value_cases)
  next
    case (Some n)
    note shape = leftmost_number_shape [OF Some]
    show ?thesis
    proof (cases "CHR ''.'' \<in> set n")
      case True
      from py_float_shape [OF shape True] obtain v where "py_float n = Inr v" ..
      then show ?thesis
        using ev Some True leftmost_number_position [OF Some]
        by (simp add: numeric_value_cases)
    next
      case False
      show ?thesis
        using ev Some False leftmost_number_position [OF Some] py_int_shape [OF shape False, of ?m]
        by (auto simp: numeric_value_cases)
    qed
  qed
  with ev show ?thesis
    using numeric_examples by simp
qed

theorem numeric_column_value_witness:
  "\<not> is_link score_column \<and> as_numeric score_column \<and>
   leftmost_number (get_text_strip score_element) = Some ''42'' \<and>
   element_value sample_env sample_url score_column score_element = Inr (PyInt 42)"
proof -
  have a: "\<not> is_link score_column" and b: "as_numeric score_column"
    by (simp_all add: score_column_def)
  have t: "get_text_strip score_element = ''Score: 42 pts''"
    by (simp add: score_element_def)
  have m: "int_max_str_digits sample_env = 4300"
    by (simp add: sample_env_def)
  have d: "int (digits_to_nat ''42'') = 42"
    by (simp add: digits_to_nat_def digit_val_def)
  have "element_value sample_env sample_url score_column score_element = Inr (PyInt 42)"
    using numeric_column_value [OF a b, of sample_env sample_url score_element]
    unfolding t leftmost_score m by (auto simp: d)
  then show ?thesis
    using a b by (simp add: t leftmost_score)
qed

text \<open>
  The pattern as the specification words it (optional digits, optional point, at least
  one digit) matches the whole of \<^verbatim>\<open>.5\<close>, a string with a point; the pattern of the code
  matches \<^verbatim>\<open>5\<close> in it, and the value is the integer 5.
\<close>

theorem numeric_pattern_counterexample:
  "spec_number_pattern ''.5'' \<and> CHR ''.'' \<in> set ''.5'' \<and>
   findall_number ''.5'' = [''5''] \<and> numeric_value 4300 ''.5'' = PyInt 5"
  by (simp add: spec_number_pattern_def numeric_value_def findall_number.simps is_digit_def
      py_int_def digits_to_nat_def digit_val_def)

text \<open>
  Claim C10, as the code has it. The handler of line 254 appends the raw text exactly
  when the first match has no point and more digits than the interpreter's limit on
  integer strings, where \<^verbatim>\<open>int\<close> raises \<^verbatim>\<open>ValueError\<close>; the string appended is then the
  text itself. With the limit switched off the value of a numeric column is never a
  string.
\<close>

theorem numeric_fallback:
  "((\<exists>s. numeric_value maxd t = PyStr s) \<longleftrightarrow>
      maxd \<noteq> 0 \<and> (\<exists>n. leftmost_number t = Some n \<and> CHR ''.'' \<notin> set n \<and> maxd < length n)) \<and>
   (numeric_value maxd t = PyStr s \<longrightarrow> s = t) \<and>
   (maxd = 0 \<longrightarrow> numeric_value maxd t \<noteq> PyStr s)"
proof (cases "leftmost_number t")
  case None
  then show ?thesis by (simp add: numeric_value_cases)
next
  case (Some n)
  note shape = leftmost_number_shape [OF Some]
  show ?thesis
  proof (cases "CHR ''.'' \<in> set n")
    case True
    from py_float_shape [OF shape True] obtain v where "py_float n = Inr v" ..
    then show ?thesis using Some True by (simp add: numeric_value_cases)
  next
    case False
    show ?thesis
      using Some False py_int_shape [OF shape False, of maxd]
      by (auto simp: numeric_value_cases)
  qed
qed

theorem numeric_fallback_witness:
  "leftmost_number ''Score: 42 pts'' = Some ''42'' \<and>
   \<not> (\<exists>s. numeric_value 4300 ''Score: 42 pts'' = PyStr s) \<and>
   numeric_value 0 ''Score: 42 pts'' \<noteq> PyStr ''Score: 42 pts''"
  using numeric_fallback [of 4300 "''Score: 42 pts''"]
    numeric_fallback [of 0 "''Score: 42 pts''" "''Score: 42 pts''"]
  by (simp add: leftmost_score)

text \<open>With the default limit of 4300, a text of 4301 digits is appended as it is.\<close>

theorem numeric_fallback_counterexample:
  "numeric_value 4300 (replicate 4301 CHR ''7'') = PyStr (replicate 4301 CHR ''7'')"
proof -
  have d: "list_all is_digit (replicate 4301 CHR ''7'')"
    by (simp add: list_all_iff is_digit_def)
  have n: "replicate 4301 CHR ''7'' \<noteq> []" by simp
  have nd: "CHR ''.'' \<notin> set (replicate 4301 CHR ''7'')" by simp
  show ?thesis
    using d nd by (simp add: numeric_value_def findall_number_digits [OF n d] py_int_def)
qed

section \<open>Table assembly\<close>

lemma foldl_max_length_ge:
  "m \<le> foldl (\<lambda>m col_data. if length col_data > m then length col_data else m) m vs \<and>
   (\<forall>v \<in> set vs. length v \<le>
      foldl (\<lambda>m col_data. if length col_data > m then length col_data else m) m vs)"
proof (induction vs arbitrary: m)
  case Nil
  show ?case by simp
next
  case (Cons v vs)
  from Cons.IH [of "if length v > m then length v else m"] show ?case
    by (auto split: if_splits)
qed

lemma foldl_max_length_attained:
  "foldl (\<lambda>m col_data. if length col_data > m then length col_data else m) m vs
     \<in> insert m (length ` set vs)"
proof (induction vs arbitrary: m)
  case Nil
  show ?case by simp
next
  case (Cons v vs)
  from Cons.IH [of "if length v > m then length v else m"] show ?case
    by (auto split: if_splits)
qed

lemma max_length_ge: "(k, v) \<in> set d \<Longrightarrow> length v \<le> max_length d"
  using foldl_max_length_ge [of 0 "map snd d"] by (force simp: max_length_def)

lemma max_length_attained:
  "0 < max_length d \<Longrightarrow> \<exists>(k, v) \<in> set d. length v = max_length d"
  using foldl_max_length_attained [of 0 "map snd d"] by (force simp: max_length_def)

lemma no_data_iff: "no_data d \<longleftrightarrow> (\<forall>(k, v) \<in> set d. v = [])"
  by (auto simp: no_data_def list_ex_iff list_all_iff)

lemma max_length_pos: "\<not> no_data d \<Longrightarrow> 0 < max_length d"
proof -
  assume "\<not> no_data d"
  then obtain k v where kv: "(k, v) \<in> set d" "v \<noteq> []"
    by (auto simp: no_data_iff)
  from max_length_ge [OF kv(1)] kv(2) show ?thesis
    by (cases v) auto
qed

lemma assemble_table:
  assumes "\<not> no_data (data_of st)"
  shows "assemble st =
    (Some (pad_columns (max_length (data_of st)) (data_of st)), errors_of st, debug_info st)"
  using assms max_length_pos [OF assms] by (simp add: assemble_def)

lemma pad_columns_nth:
  assumes "i < length d"
  shows "fst (pad_columns (max_length d) d ! i) = fst (d ! i)"
    and "snd (pad_columns (max_length d) d ! i) =
           snd (d ! i) @ replicate (max_length d - length (snd (d ! i))) PyNone"
    and "length (snd (pad_columns (max_length d) d ! i)) = max_length d"
proof -
  obtain k v where kv: "d ! i = (k, v)" by (cases "d ! i")
  with assms have "(k, v) \<in> set d" by (metis nth_mem)
  then have le: "length v \<le> max_length d" by (rule max_length_ge)
  show "fst (pad_columns (max_length d) d ! i) = fst (d ! i)"
    using assms kv by (simp add: pad_columns_def)
  show "snd (pad_columns (max_length d) d ! i) =
           snd (d ! i) @ replicate (max_length d - length (snd (d ! i))) PyNone"
    using assms kv le by (simp add: pad_columns_def)
  then show "length (snd (pad_columns (max_length d) d ! i)) = max_length d"
    using kv le by simp
qed

lemma pad_columns_keys: "map fst (pad_columns m d) = map fst d"
  by (induction d) (auto simp: pad_columns_def)

lemma critical_error_neq:
  "critical_error msg \<noteq> ''No data extracted''"
  "critical_error msg \<noteq> ''No data found with the specified selectors''"
  by (simp_all add: critical_error_def)

lemma assemble_no_data_extracted: "assemble st \<noteq> (None, [''No data extracted''], dbg)"
  using max_length_pos [of "data_of st"] by (auto simp: assemble_def)

lemma extract_and_assemble_no_data_extracted:
  "extract_and_assemble env soup url columns css_classes dbg0 \<noteq> (None, [''No data extracted''], dbg)"
  by (auto simp: extract_and_assemble_def critical_error_neq assemble_no_data_extracted
      split: sum.splits prod.splits)

lemma http_error_neq: "''HTTP Error: '' @ s \<noteq> ''No data extracted''"
  by simp

text \<open>
  Claim C4. When some column has a value, the assembly returns a table with the columns
  of \<^verbatim>\<open>data\<close> in their order; each column is its extracted values followed by as many
  \<^verbatim>\<open>None\<close> as it lacks to \<^verbatim>\<open>max_length\<close>, so nothing is cut off and every column has
  length \<^verbatim>\<open>max_length\<close>, which is the length of a longest column. Columns of the lengths
  5, 3 and 5 give a table of length 5 whose second column ends in two \<^verbatim>\<open>None\<close>.
\<close>

theorem padded_table:
  assumes "\<not> no_data (data_of st)"
  shows "\<exists>df. assemble st = (Some df, errors_of st, debug_info st) \<and>
          map fst df = map fst (data_of st) \<and>
          (\<forall>i < length (data_of st).
             snd (df ! i) =
               snd (data_of st ! i) @
               replicate (max_length (data_of st) - length (snd (data_of st ! i))) PyNone \<and>
             length (snd (df ! i)) = max_length (data_of st)) \<and>
          (\<forall>(k, v) \<in> set (data_of st). length v \<le> max_length (data_of st)) \<and>
          (\<exists>(k, v) \<in> set (data_of st). length v = max_length (data_of st)) \<and>
          (\<forall>k1 k2 k3 a b c es dbg. length a = 5 \<and> length b = 3 \<and> length c = 5 \<longrightarrow>
             assemble \<lparr>data_of = [(k1, a), (k2, b), (k3, c)], errors_of = es, debug_info = dbg\<rparr> =
               (Some [(k1, a), (k2, b @ [PyNone, PyNone]), (k3, c)], es, dbg))"
proof -
  let ?d = "data_of st"
  let ?df = "pad_columns (max_length ?d) ?d"
  have 1: "assemble st = (Some ?df, errors_of st, debug_info st)"
    by (rule assemble_table [OF assms])
  have 2: "map fst ?df = map fst ?d"
    by (rule pad_columns_keys)
  have 3: "\<forall>i < length ?d.
             snd (?df ! i) = snd (?d ! i) @ replicate (max_length ?d - length (snd (?d ! i))) PyNone \<and>
             length (snd (?df ! i)) = max_length ?d"
    using pad_columns_nth(2,3) [of _ ?d] by blast
  have 4: "\<forall>(k, v) \<in> set ?d. length v \<le> max_length ?d"
    using max_length_ge [of _ _ ?d] by blast
  have 5: "\<exists>(k, v) \<in> set ?d. length v = max_length ?d"
    by (rule max_length_attained [OF max_length_pos [OF assms]])
  have 6: "\<forall>k1 k2 k3 a b c es dbg. length a = 5 \<and> length b = 3 \<and> length c = 5 \<longrightarrow>
             assemble \<lparr>data_of = [(k1, a), (k2, b), (k3, c)], errors_of = es, debug_info = dbg\<rparr> =
               (Some [(k1, a), (k2, b @ [PyNone, PyNone]), (k3, c)], es, dbg)"
  proof (intro allI impI)
    fix k1 k2 k3 :: string and a b c :: "py_value list" and es dbg :: "string list"
    assume l: "length a = 5 \<and> length b = 3 \<and> length c = 5"
    then have ne: "a \<noteq> []" by auto
    have r: "replicate 2 PyNone = [PyNone, PyNone]"
      by (simp add: numeral_2_eq_2)
    show "assemble \<lparr>data_of = [(k1, a), (k2, b), (k3, c)], errors_of = es, debug_info = dbg\<rparr> =
               (Some [(k1, a), (k2, b @ [PyNone, PyNone]), (k3, c)], es, dbg)"
      using l ne by (simp add: assemble_def no_data_def max_length_def pad_columns_def r)
  qed
  from 1 2 3 4 5 6 show ?thesis by blast
qed

theorem padded_table_witness:
  "\<not> no_data [(''A'', [PyInt 1, PyInt 2]), (''B'', [PyStr ''x''])] \<and>
   assemble \<lparr>data_of = [(''A'', [PyInt 1, PyInt 2]), (''B'', [PyStr ''x''])],
             errors_of = [], debug_info = []\<rparr> =
     (Some [(''A'', [PyInt 1, PyInt 2]), (''B'', [PyStr ''x'', PyNone])], [], [])"
proof -
  let ?st = "\<lparr>data_of = [(''A'', [PyInt 1, PyInt 2]), (''B'', [PyStr ''x''])],
             errors_of = [], debug_info = []\<rparr>"
  have h: "\<not> no_data (data_of ?st)"
    by (simp add: no_data_def)
  have m: "max_length (data_of ?st) = 2"
    by (simp add: max_length_def)
  from padded_table [OF h] obtain df where
    a: "assemble ?st = (Some df, errors_of ?st, debug_info ?st)" and
    k: "map fst df = map fst (data_of ?st)" and
    v: "\<forall>i < length (data_of ?st).
          snd (df ! i) = snd (data_of ?st ! i) @
            replicate (max_length (data_of ?st) - length (snd (data_of ?st ! i))) PyNone \<and>
             length (snd (df ! i)) = max_length (data_of ?st)"
    by blast
  from k have len: "length df = 2"
    by (metis length_map list.size(3,4) One_nat_def Suc_1 scrape_state.select_convs(1) add.commute plus_1_eq_Suc)
  from v have v0: "snd (df ! 0) = [PyInt 1, PyInt 2]" and v1: "snd (df ! 1) = [PyStr ''x'', PyNone]"
    unfolding m by simp_all
  from k len have k0: "fst (df ! 0) = ''A''" and k1: "fst (df ! 1) = ''B''"
    by (simp_all add: list_eq_iff_nth_eq)
  have "df = [df ! 0, df ! 1]"
    using len by (simp add: list_eq_iff_nth_eq less_Suc_eq numeral_2_eq_2)
  also have "\<dots> = [(''A'', [PyInt 1, PyInt 2]), (''B'', [PyStr ''x'', PyNone])]"
    using v0 v1 k0 k1 by (simp add: prod_eq_iff)
  finally show ?thesis
    using a h by simp
qed

text \<open>
  Claim C9. Past the check of line 266 some column has a value, so \<^verbatim>\<open>max_length\<close> is
  positive and the return of line 276 is never taken: neither the assembly nor
  \<^verbatim>\<open>scrape_with_requests\<close> answers \<^verbatim>\<open>No data extracted\<close>, and an assembly without a table
  answers \<^verbatim>\<open>No data found with the specified selectors\<close>.
\<close>

theorem no_data_extracted_unreachable:
  "(\<not> no_data (data_of st) \<longrightarrow>
      (\<exists>(k, v) \<in> set (data_of st). v \<noteq> []) \<and> 0 < max_length (data_of st)) \<and>
   assemble st \<noteq> (None, [''No data extracted''], dbg) \<and>
   scrape_with_requests env url columns css_classes \<noteq> (None, [''No data extracted''], dbg) \<and>
   (fst (assemble st) = None \<longrightarrow>
      assemble st = (None, [''No data found with the specified selectors''], debug_info st))"
proof -
  have 1: "\<not> no_data (data_of st) \<longrightarrow>
      (\<exists>(k, v) \<in> set (data_of st). v \<noteq> []) \<and> 0 < max_length (data_of st)"
    using max_length_pos [of "data_of st"] by (auto simp: no_data_iff)
  have 2: "assemble st \<noteq> (None, [''No data extracted''], dbg)"
    by (rule assemble_no_data_extracted)
  have 3: "scrape_with_requests env url columns css_classes \<noteq> (None, [''No data extracted''], dbg)"
    by (auto simp: scrape_with_requests_def Let_def critical_error_neq
        extract_and_assemble_no_data_extracted split: sum.splits option.splits)
  have 4: "fst (assemble st) = None \<longrightarrow>
      assemble st = (None, [''No data found with the specified selectors''], debug_info st)"
    using max_length_pos [of "data_of st"]
    by (cases "no_data (data_of st)") (simp_all add: assemble_def)
  from 1 2 3 4 show ?thesis by blast
qed

theorem no_data_extracted_unreachable_witness:
  "\<not> no_data [(''A'', [PyInt 1])] \<and> 0 < max_length [(''A'', [PyInt 1])] \<and>
   fst (assemble \<lparr>data_of = [(''A'', [])], errors_of = [], debug_info = []\<rparr>) = None \<and>
   assemble \<lparr>data_of = [(''A'', [])], errors_of = [], debug_info = []\<rparr> =
     (None, [''No data found with the specified selectors''], [])"
proof -
  have h: "\<not> no_data [(''A'', [PyInt 1])]"
    by (simp add: no_data_def)
  have n: "fst (assemble \<lparr>data_of = [(''A'', [])], errors_of = [], debug_info = []\<rparr>) = None"
    by (simp add: assemble_def no_data_def)
  show ?thesis
    using h n
      no_data_extracted_unreachable
        [of "\<lparr>data_of = [(''A'', [PyInt 1])], errors_of = [], debug_info = []\<rparr>"]
      no_data_extracted_unreachable
        [of "\<lparr>data_of = [(''A'', [])], errors_of = [], debug_info = []\<rparr>"]
    by simp
qed

section \<open>The status of the response\<close>

lemma show_nat_200: "show_nat 200 = ''200''"
  by (simp add: show_nat.simps digit_char_def)

lemma show_nat_204: "show_nat 204 = ''204''"
  by (simp add: show_nat.simps digit_char_def)

lemma show_nat_0: "show_nat 0 = ''0''"
  by (simp add: show_nat.simps digit_char_def)

lemma assemble_failure_head:
  "assemble st = (None, [e], dbg) \<Longrightarrow> hd e = CHR ''N''"
  by (auto simp: assemble_def split: if_splits)

lemma extract_and_assemble_failure_head:
  assumes "extract_and_assemble env soup url columns css_classes dbg0 = (None, [e], dbg)"
  shows "hd e = CHR ''N'' \<or> hd e = CHR ''C''"
proof (cases "extract_data env soup url columns css_classes dbg0")
  case (Inl x)
  then show ?thesis
    using assms by (cases x) (auto simp: extract_and_assemble_def critical_error_def)
next
  case (Inr st)
  then show ?thesis
    using assms assemble_failure_head [of st e dbg] by (simp add: extract_and_assemble_def)
qed

lemma scrape_with_requests_ok:
  assumes "requests_get env url = Inr resp" and "status_code resp = 200"
  shows "scrape_with_requests env url columns css_classes =
            (case (if save_html env then write_html env (content_soup resp) else None) of
               Some msg \<Rightarrow>
                 (None, [critical_error msg],
                  [''HTTP Status: '' @ show_nat (status_code resp),
                   ''Content Length: '' @ show_nat (content_length resp) @ '' bytes''] @
                  (if enable_debug env then debug_page_content (content_soup resp) url else []))
             | None \<Rightarrow>
                 extract_and_assemble env (content_soup resp) url columns css_classes
                   (([''HTTP Status: '' @ show_nat (status_code resp),
                      ''Content Length: '' @ show_nat (content_length resp) @ '' bytes''] @
                     (if enable_debug env then debug_page_content (content_soup resp) url else [])) @
                    (if save_html env then [''HTML saved to file''] else [])))"
  using assms by (auto simp: scrape_with_requests_def Let_def split: option.splits)

lemma scrape_with_requests_ok_head:
  assumes "requests_get env url = Inr resp" and "status_code resp = 200"
    and "scrape_with_requests env url columns css_classes = (None, [e], dbg)"
  shows "hd e = CHR ''N'' \<or> hd e = CHR ''C''"
proof (cases "if save_html env then write_html env (content_soup resp) else None")
  case None
  then show ?thesis
    using assms(3) extract_and_assemble_failure_head [of env "content_soup resp" url columns css_classes _ e dbg]
    unfolding scrape_with_requests_ok [OF assms(1,2)] by simp
next
  case (Some msg)
  then show ?thesis
    using assms(3) unfolding scrape_with_requests_ok [OF assms(1,2)]
    by (auto simp: critical_error_def)
qed

lemma scrape_with_requests_error:
  assumes "requests_get env url = Inr resp" and "status_code resp \<noteq> 200"
  shows "scrape_with_requests env url columns css_classes =
         (None, [''HTTP Error: '' @ show_nat (status_code resp)],
          [''HTTP Status: '' @ show_nat (status_code resp),
           ''Content Length: '' @ show_nat (content_length resp) @ '' bytes''])"
  using assms by (simp add: scrape_with_requests_def Let_def)

text \<open>
  Claim C6, as the code has it. A request that fails on the way returns
  \<^verbatim>\<open>Critical error: <message>\<close>. When a response arrives, the function returns
  \<^verbatim>\<open>HTTP Error: <status>\<close> exactly when the status is not 200; only with status 200 does
  it go on to the parsed body, the optional saving of the HTML and the extraction, and
  it then never answers with an \<^verbatim>\<open>HTTP Error\<close>.
\<close>

theorem http_status_gate:
  "(\<forall>msg. requests_get env url = Inl msg \<longrightarrow>
      scrape_with_requests env url columns css_classes = (None, [''Critical error: '' @ msg], [])) \<and>
   (\<forall>resp. requests_get env url = Inr resp \<longrightarrow>
      (scrape_with_requests env url columns css_classes =
         (None, [''HTTP Error: '' @ show_nat (status_code resp)],
          [''HTTP Status: '' @ show_nat (status_code resp),
           ''Content Length: '' @ show_nat (content_length resp) @ '' bytes''])
       \<longleftrightarrow> status_code resp \<noteq> 200) \<and>
      (status_code resp = 200 \<longrightarrow>
         (\<forall>s dbg. scrape_with_requests env url columns css_classes \<noteq> (None, [''HTTP Error: '' @ s], dbg)) \<and>
         (\<exists>dbg. scrape_with_requests env url columns css_classes =
            (case (if save_html env then write_html env (content_soup resp) else None) of
               Some msg \<Rightarrow> (None, [''Critical error: '' @ msg], dbg)
             | None \<Rightarrow>
                 extract_and_assemble env (content_soup resp) url columns css_classes
                   (dbg @ (if save_html env then [''HTML saved to file''] else []))))))"
proof (intro conjI allI impI)
  fix msg assume "requests_get env url = Inl msg"
  then show "scrape_with_requests env url columns css_classes = (None, [''Critical error: '' @ msg], [])"
    by (simp add: scrape_with_requests_def critical_error_def)
next
  fix resp assume r: "requests_get env url = Inr resp"
  show "(scrape_with_requests env url columns css_classes =
         (None, [''HTTP Error: '' @ show_nat (status_code resp)],
          [''HTTP Status: '' @ show_nat (status_code resp),
           ''Content Length: '' @ show_nat (content_length resp) @ '' bytes''])
       \<longleftrightarrow> status_code resp \<noteq> 200)"
  proof
    assume eq: "scrape_with_requests env url columns css_classes =
         (None, [''HTTP Error: '' @ show_nat (status_code resp)],
          [''HTTP Status: '' @ show_nat (status_code resp),
           ''Content Length: '' @ show_nat (content_length resp) @ '' bytes''])"
    show "status_code resp \<noteq> 200"
    proof
      assume "status_code resp = 200"
      from scrape_with_requests_ok_head [OF r this eq] show False by simp
    qed
  next
    assume "status_code resp \<noteq> 200"
    then show "scrape_with_requests env url columns css_classes =
         (None, [''HTTP Error: '' @ show_nat (status_code resp)],
          [''HTTP Status: '' @ show_nat (status_code resp),
           ''Content Length: '' @ show_nat (content_length resp) @ '' bytes''])"
      by (rule scrape_with_requests_error [OF r])
  qed
next
  fix resp s dbg assume r: "requests_get env url = Inr resp" and ok: "status_code resp = 200"
  show "scrape_with_requests env url columns css_classes \<noteq> (None, [''HTTP Error: '' @ s], dbg)"
  proof
    assume "scrape_with_requests env url columns css_classes = (None, [''HTTP Error: '' @ s], dbg)"
    from scrape_with_requests_ok_head [OF r ok this] show False by simp
  qed
next
  fix resp assume r: "requests_get env url = Inr resp" and ok: "status_code resp = 200"
  show "\<exists>dbg. scrape_with_requests env url columns css_classes =
            (case (if save_html env then write_html env (content_soup resp) else None) of
               Some msg \<Rightarrow> (None, [''Critical error: '' @ msg], dbg)
             | None \<Rightarrow>
                 extract_and_assemble env (content_soup resp) url columns css_classes
                   (dbg @ (if save_html env then [''HTML saved to file''] else [])))"
    unfolding scrape_with_requests_ok [OF r ok] critical_error_def by blast
qed

theorem http_status_gate_witness:
  "requests_get offline_env sample_url = Inl ''Connection refused'' \<and>
   scrape_with_requests offline_env sample_url [score_column] [''card''] =
     (None, [''Critical error: Connection refused''], []) \<and>
   requests_get sample_env sample_url = Inr sample_response \<and>
   status_code sample_response = 200 \<and>
   scrape_with_requests sample_env sample_url [score_column] [''card''] \<noteq>
     (None, [''HTTP Error: 200''], [''HTTP Status: 200'', ''Content Length: 512 bytes''])"
proof -
  have a: "requests_get offline_env sample_url = Inl ''Connection refused''"
    by (simp add: offline_env_def sample_env_def)
  have b: "requests_get sample_env sample_url = Inr sample_response"
    by (simp add: sample_env_def)
  have c: "status_code sample_response = 200"
    by (simp add: sample_response_def)
  show ?thesis
    using a b c
      http_status_gate [of offline_env sample_url "[score_column]" "[''card'']"]
      http_status_gate [of sample_env sample_url "[score_column]" "[''card'']"]
    by (auto simp del: One_nat_def)
qed

text \<open>The status 204 is of the class 2xx, and the answer to it is an \<^verbatim>\<open>HTTP Error\<close>.\<close>

theorem http_status_gate_counterexample:
  "is_2xx 204 \<and>
   scrape_with_requests no_content_env sample_url [score_column] [''card''] =
     (None, [''HTTP Error: 204''], [''HTTP Status: 204'', ''Content Length: 0 bytes''])"
  by (simp add: is_2xx_def scrape_with_requests_def no_content_env_def sample_env_def
      show_nat_204 show_nat_0)

section \<open>The page inspector\<close>

lemma take_length_eq: "take (length w) s = w \<longleftrightarrow> (\<exists>q. s = w @ q)"
  by (metis append_eq_conv_conj append_take_drop_id)

lemma search_literal_iff: "search_literal w s \<longleftrightarrow> (\<exists>p q. s = p @ w @ q)"
proof (induction s)
  case Nil
  show ?case by auto
next
  case (Cons c cs)
  have "(\<exists>p q. c # cs = p @ w @ q) \<longleftrightarrow> (\<exists>q. c # cs = w @ q) \<or> (\<exists>p q. cs = p @ w @ q)"
  proof
    assume "\<exists>p q. c # cs = p @ w @ q"
    then obtain p q where pq: "c # cs = p @ w @ q" by blast
    show "(\<exists>q. c # cs = w @ q) \<or> (\<exists>p q. cs = p @ w @ q)"
    proof (cases p)
      case Nil
      with pq show ?thesis by auto
    next
      case (Cons a p')
      with pq have "cs = p' @ w @ q" by simp
      then show ?thesis by blast
    qed
  next
    assume "(\<exists>q. c # cs = w @ q) \<or> (\<exists>p q. cs = p @ w @ q)"
    then show "\<exists>p q. c # cs = p @ w @ q"
    proof
      assume "\<exists>q. c # cs = w @ q"
      then obtain q where "c # cs = [] @ w @ q" by auto
      then show ?thesis by blast
    next
      assume "\<exists>p q. cs = p @ w @ q"
      then obtain p q where "c # cs = (c # p) @ w @ q" by auto
      then show ?thesis by blast
    qed
  qed
  then show ?case
    using Cons.IH take_length_eq [of w "c # cs"] by simp
qed

lemma joined_occurrence:
  assumes "w \<noteq> []" and "CHR '' '' \<notin> set w"
  shows "join_space toks = p @ w @ q \<Longrightarrow> \<exists>t \<in> set toks. \<exists>p' q'. t = p' @ w @ q'"
proof (induction toks arbitrary: p q rule: join_space.induct)
  case 1
  with assms show ?case by simp
next
  case (2 t)
  then show ?case by auto
next
  case (3 t t' ts)
  let ?rest = "join_space (t' # ts)"
  from "3.prems" have eq: "p @ (w @ q) = t @ (CHR '' '' # ?rest)" by simp
  then obtain us where
    "(p = t @ us \<and> us @ (w @ q) = CHR '' '' # ?rest) \<or> (p @ us = t \<and> w @ q = us @ (CHR '' '' # ?rest))"
    unfolding append_eq_append_conv2 by blast
  then show ?case
  proof
    assume a: "p = t @ us \<and> us @ (w @ q) = CHR '' '' # ?rest"
    show ?thesis
    proof (cases us)
      case Nil
      with a have "w @ q = CHR '' '' # ?rest" by simp
      with assms have False by (cases w) auto
      then show ?thesis ..
    next
      case (Cons u us')
      with a have "?rest = us' @ w @ q" by simp
      from "3.IH" [OF this] show ?thesis by auto
    qed
  next
    assume b: "p @ us = t \<and> w @ q = us @ (CHR '' '' # ?rest)"
    then obtain vs where
      "(w = us @ vs \<and> vs @ q = CHR '' '' # ?rest) \<or> (w @ vs = us \<and> q = vs @ (CHR '' '' # ?rest))"
      unfolding append_eq_append_conv2 by blast
    then show ?thesis
    proof
      assume c: "w = us @ vs \<and> vs @ q = CHR '' '' # ?rest"
      show ?thesis
      proof (cases vs)
        case Nil
        with b c have "t = p @ w @ []" by simp
        then show ?thesis by (metis list.set_intros(1))
      next
        case (Cons v vs')
        with c have "v = CHR '' ''" by simp
        with c Cons assms(2) have False by simp
        then show ?thesis ..
      qed
    next
      assume "w @ vs = us \<and> q = vs @ (CHR '' '' # ?rest)"
      with b have "t = p @ w @ vs" by auto
      then show ?thesis by (metis list.set_intros(1))
    qed
  qed
qed

lemma class_matches_literal:
  assumes "w \<noteq> []" and "CHR '' '' \<notin> set w"
  shows "class_matches (search_literal w) e \<longleftrightarrow>
     (\<exists>toks. el_class e = Some toks \<and> (\<exists>t \<in> set toks. \<exists>p q. t = p @ w @ q))"
proof (cases "el_class e")
  case None
  then show ?thesis by (simp add: class_matches_def)
next
  case (Some toks)
  have j: "search_literal w (join_space toks) \<Longrightarrow> \<exists>t \<in> set toks. search_literal w t"
    unfolding search_literal_iff using joined_occurrence [OF assms, of toks] by blast
  have "class_matches (search_literal w) e \<longleftrightarrow>
      (\<exists>t \<in> set toks. search_literal w t) \<or> search_literal w (join_space toks)"
    using Some by (simp add: class_matches_def list_ex_iff)
  also have "\<dots> \<longleftrightarrow> (\<exists>t \<in> set toks. search_literal w t)"
    using j by blast
  also have "\<dots> \<longleftrightarrow> (\<exists>t \<in> set toks. \<exists>p q. t = p @ w @ q)"
    by (simp add: search_literal_iff)
  finally show ?thesis
    using Some by simp
qed

lemma class_matches_card: "class_matches card_pattern_search e \<longleftrightarrow> has_card_token e"
proof -
  have "class_matches card_pattern_search e \<longleftrightarrow>
      class_matches (search_literal ''card'') e \<or> class_matches (search_literal ''item'') e \<or>
      class_matches (search_literal ''result'') e"
    by (auto simp: class_matches_def card_pattern_search_def list_ex_iff split: option.splits)
  also have "\<dots> \<longleftrightarrow> has_card_token e"
    unfolding has_card_token_def
    by (subst class_matches_literal, simp, simp)+ blast
  finally show ?thesis .
qed

lemma show_nat_small:
  "show_nat 0 = ''0''" "show_nat 1 = ''1''" "show_nat (Suc 0) = ''1''" "show_nat 2 = ''2''"
  by (simp_all add: show_nat.simps digit_char_def)

lemma card_like_elements_filter: "card_like_elements soup = filter has_card_token soup"
  by (simp add: card_like_elements_def class_matches_card cong: filter_cong)

text \<open>
  Claim C7, as the code has it. The third line of the inspector reports the number of
  elements that have a class token containing \<^verbatim>\<open>card\<close>, \<^verbatim>\<open>item\<close> or \<^verbatim>\<open>result\<close> as it
  is written, in lower case: the pattern of line 153 is compiled without a flag. (The
  tokens joined by spaces, which \<^verbatim>\<open>find_all\<close> tries as well, add no element, since the
  three words contain no space.)
\<close>

theorem card_like_count:
  "debug_page_content soup url ! 2 =
     ''Card-like elements found: '' @ show_nat (length (filter has_card_token soup)) \<and>
   card_like_elements soup = filter has_card_token soup \<and>
   (\<forall>e \<in> set soup. has_card_token e \<longleftrightarrow>
      (\<exists>toks. el_class e = Some toks \<and>
        (\<exists>t \<in> set toks. \<exists>p q.
           t = p @ ''card'' @ q \<or> t = p @ ''item'' @ q \<or> t = p @ ''result'' @ q)))"
  by (simp add: debug_page_content_def Let_def card_like_elements_filter has_card_token_def)

theorem card_like_count_witness:
  "score_element \<in> set sample_soup \<and> has_card_token score_element \<and>
   debug_page_content sample_soup sample_url ! 2 =
     ''Card-like elements found: '' @ show_nat (length (filter has_card_token sample_soup)) \<and>
   card_like_elements sample_soup = [score_element, rating_element]"
proof -
  have m: "score_element \<in> set sample_soup"
    by (simp add: sample_soup_def)
  have c: "card_like_elements sample_soup = [score_element, rating_element]"
    by (simp add: card_like_elements_def sample_soup_def class_matches_def card_pattern_search_def
        title_element_def score_element_def rating_element_def capital_element_def
        link_element_def)
  note th = card_like_count [of sample_soup sample_url]
  have f: "filter has_card_token sample_soup = [score_element, rating_element]"
    using th [THEN conjunct2, THEN conjunct1] c by simp
  have "score_element \<in> set (filter has_card_token sample_soup)"
    unfolding f by simp
  then have h: "has_card_token score_element" by simp
  from m h th [THEN conjunct1] c show ?thesis by blast
qed

text \<open>
  An element of class \<^verbatim>\<open>Card\<close> is not counted, one of class \<^verbatim>\<open>card\<close> is.
\<close>

theorem card_like_count_counterexample:
  "el_class capital_element = Some [''Card''] \<and>
   card_like_elements [capital_element] = [] \<and>
   debug_page_content [capital_element] sample_url ! 2 = ''Card-like elements found: 0'' \<and>
   el_class score_element = Some [''card''] \<and>
   card_like_elements [score_element] = [score_element] \<and>
   debug_page_content [score_element] sample_url ! 2 = ''Card-like elements found: 1''"
  by (simp add: debug_page_content_def Let_def card_like_elements_def class_matches_def
      card_pattern_search_def capital_element_def score_element_def show_nat_small)

section \<open>The three strategies\<close>

lemma trace_lines_distinct [simp]:
  "strategy1_line n \<noteq> strategy2_line m" "strategy2_line m \<noteq> strategy1_line n"
  "strategy1_line n \<noteq> strategy3_line m" "strategy3_line m \<noteq> strategy1_line n"
  "strategy2_line n \<noteq> strategy3_line m" "strategy3_line m \<noteq> strategy2_line n"
  "strategy1_line n \<noteq> selector_failed_line msg" "selector_failed_line msg \<noteq> strategy1_line n"
  "strategy2_line n \<noteq> selector_failed_line msg" "selector_failed_line msg \<noteq> strategy2_line n"
  "strategy3_line n \<noteq> selector_failed_line msg" "selector_failed_line msg \<noteq> strategy3_line n"
  by (simp_all add: strategy1_line_def strategy2_line_def strategy3_line_def
      selector_failed_line_def)

lemma resolve_strategy1:
  assumes "find_all_class soup (tag col) (\<lambda>v. v = css_class) \<noteq> []"
  shows "resolve_elements env soup col css_class =
     Inr (find_all_class soup (tag col) (\<lambda>v. v = css_class),
          [strategy1_line (length (find_all_class soup (tag col) (\<lambda>v. v = css_class)))])"
  using assms by (simp add: resolve_elements_def Let_def)

lemma resolve_strategy3:
  assumes "find_all_class soup (tag col) (\<lambda>v. v = css_class) = []"
    and "CHR ''.'' \<notin> set css_class"
  shows "resolve_elements env soup col css_class =
     (case select env soup (tag col @ ''.'' @ css_class) of
        Inr elements3 \<Rightarrow> Inr (elements3, [strategy1_line 0, strategy3_line (length elements3)])
      | Inl msg \<Rightarrow> Inr ([], [strategy1_line 0, selector_failed_line msg]))"
  using assms by (simp add: resolve_elements_def Let_def split: sum.splits)

lemma resolve_strategy2_raises:
  assumes "find_all_class soup (tag col) (\<lambda>v. v = css_class) = []"
    and "CHR ''.'' \<in> set css_class"
    and "partial_elements env soup (tag col) (split_dot css_class) = Inl msg"
  shows "resolve_elements env soup col css_class = Inl (msg, [strategy1_line 0])"
  using assms by (simp add: resolve_elements_def Let_def)

lemma resolve_strategy2_found:
  assumes "find_all_class soup (tag col) (\<lambda>v. v = css_class) = []"
    and "CHR ''.'' \<in> set css_class"
    and "partial_elements env soup (tag col) (split_dot css_class) = Inr found"
    and "found \<noteq> []"
  shows "resolve_elements env soup col css_class =
     Inr (found, [strategy1_line 0, strategy2_line (length found)])"
  using assms by (simp add: resolve_elements_def Let_def)

lemma resolve_strategy2_empty:
  assumes "find_all_class soup (tag col) (\<lambda>v. v = css_class) = []"
    and "CHR ''.'' \<in> set css_class"
    and "partial_elements env soup (tag col) (split_dot css_class) = Inr []"
  shows "resolve_elements env soup col css_class =
     (case select env soup (tag col @ ''.'' @ css_class) of
        Inr elements3 \<Rightarrow>
          Inr (elements3, [strategy1_line 0, strategy2_line 0, strategy3_line (length elements3)])
      | Inl msg \<Rightarrow> Inr ([], [strategy1_line 0, strategy2_line 0, selector_failed_line msg]))"
  using assms by (simp add: resolve_elements_def Let_def split: sum.splits)

lemmas sample_elements =
  sample_soup_def title_element_def score_element_def rating_element_def capital_element_def
  link_element_def

lemma find_all_card:
  "find_all_class sample_soup ''div'' (\<lambda>v. v = ''card'') = [score_element, rating_element]"
  by (simp add: find_all_class_def class_matches_def sample_elements)

lemma find_all_more_card:
  "find_all_class sample_soup ''div'' (\<lambda>v. v = ''more.card'') = []"
  by (simp add: find_all_class_def class_matches_def sample_elements)

lemma partial_more_card:
  "partial_elements sample_env sample_soup ''div'' (split_dot ''more.card'') =
     Inr [score_element, rating_element]"
  by (simp add: sample_env_def find_all_class_def class_matches_def sample_elements)

lemma resolve_more_card:
  "resolve_elements sample_env sample_soup score_column ''more.card'' =
     Inr ([score_element, rating_element], [strategy1_line 0, strategy2_line 2])"
proof -
  have t: "tag score_column = ''div''" by (simp add: score_column_def)
  have e: "find_all_class sample_soup (tag score_column) (\<lambda>v. v = ''more.card'') = []"
    unfolding t by (rule find_all_more_card)
  have d: "CHR ''.'' \<in> set ''more.card''" by simp
  have p: "partial_elements sample_env sample_soup (tag score_column) (split_dot ''more.card'') =
      Inr [score_element, rating_element]"
    unfolding t by (rule partial_more_card)
  have n: "[score_element, rating_element] \<noteq> []" by simp
  show ?thesis
    using resolve_strategy2_found [OF e d p n] by (simp add: numeral_2_eq_2)
qed

text \<open>
  Claim C3. When the exact class match of Strategy 1 finds an element, the result is what
  it found and the trace gets the line of Strategy 1 only, whatever the engines for
  patterns and CSS selectors would answer: Strategies 2 and 3 are not attempted. The
  line of Strategy 2 is in the trace exactly when Strategy 1 found nothing and the
  selector contains a point, and an exception leaves the block only from there. A line
  of Strategy 3 (its count, or the failure of the selector) is in the trace exactly
  when Strategy 1 found nothing and Strategy 2, where it ran, found nothing either.
\<close>

theorem strategies_short_circuit:
  "(let elements1 = find_all_class soup (tag col) (\<lambda>v. v = css_class) in
    (elements1 \<noteq> [] \<longrightarrow>
       (\<forall>env'. resolve_elements env' soup col css_class =
                 Inr (elements1, [strategy1_line (length elements1)]))) \<and>
    (\<forall>es tr. resolve_elements env soup col css_class = Inr (es, tr) \<longrightarrow>
       ((\<exists>n. strategy2_line n \<in> set tr) \<longleftrightarrow>
          elements1 = [] \<and> CHR ''.'' \<in> set css_class) \<and>
       ((\<exists>n. strategy3_line n \<in> set tr) \<or> (\<exists>msg. selector_failed_line msg \<in> set tr) \<longleftrightarrow>
          elements1 = [] \<and>
          (CHR ''.'' \<in> set css_class \<longrightarrow>
             partial_elements env soup (tag col) (split_dot css_class) = Inr []))) \<and>
    (\<forall>msg tr. resolve_elements env soup col css_class = Inl (msg, tr) \<longrightarrow>
       elements1 = [] \<and> CHR ''.'' \<in> set css_class \<and>
       partial_elements env soup (tag col) (split_dot css_class) = Inl msg \<and>
       tr = [strategy1_line 0]))"
proof -
  let ?e1 = "find_all_class soup (tag col) (\<lambda>v. v = css_class)"
  let ?p = "partial_elements env soup (tag col) (split_dot css_class)"
  let ?r = "resolve_elements env soup col css_class"
  have a: "?e1 \<noteq> [] \<longrightarrow>
       (\<forall>env'. resolve_elements env' soup col css_class = Inr (?e1, [strategy1_line (length ?e1)]))"
    using resolve_strategy1 by blast
  have b: "\<forall>es tr. ?r = Inr (es, tr) \<longrightarrow>
       ((\<exists>n. strategy2_line n \<in> set tr) \<longleftrightarrow> ?e1 = [] \<and> CHR ''.'' \<in> set css_class) \<and>
       ((\<exists>n. strategy3_line n \<in> set tr) \<or> (\<exists>msg. selector_failed_line msg \<in> set tr) \<longleftrightarrow>
          ?e1 = [] \<and> (CHR ''.'' \<in> set css_class \<longrightarrow> ?p = Inr []))"
  proof (cases "?e1 = []")
    case False
    then show ?thesis
      by (simp add: resolve_strategy1 [OF False])
  next
    case e: True
    show ?thesis
    proof (cases "CHR ''.'' \<in> set css_class")
      case False
      show ?thesis
        using e False
        by (cases "select env soup (tag col @ ''.'' @ css_class)")
           (auto simp: resolve_strategy3 [OF e False])
    next
      case dot: True
      show ?thesis
      proof (cases ?p)
        case (Inl msg)
        then show ?thesis
          by (simp add: resolve_strategy2_raises [OF e dot Inl])
      next
        case (Inr found)
        show ?thesis
        proof (cases "found = []")
          case True
          with Inr have p: "?p = Inr []" by simp
          show ?thesis
            using e dot p
            by (cases "select env soup (tag col @ ''.'' @ css_class)")
               (auto simp: resolve_strategy2_empty [OF e dot p])
        next
          case False
          show ?thesis
            using e dot Inr False
            by (auto simp: resolve_strategy2_found [OF e dot Inr False])
        qed
      qed
    qed
  qed
  have c: "\<forall>msg tr. ?r = Inl (msg, tr) \<longrightarrow>
       ?e1 = [] \<and> CHR ''.'' \<in> set css_class \<and> ?p = Inl msg \<and> tr = [strategy1_line 0]"
  proof (cases "?e1 = []")
    case False
    then show ?thesis by (simp add: resolve_strategy1 [OF False])
  next
    case e: True
    show ?thesis
    proof (cases "CHR ''.'' \<in> set css_class")
      case False
      show ?thesis
        by (cases "select env soup (tag col @ ''.'' @ css_class)")
           (auto simp: resolve_strategy3 [OF e False])
    next
      case dot: True
      show ?thesis
      proof (cases ?p)
        case (Inl msg)
        then show ?thesis
          using e dot by (simp add: resolve_strategy2_raises [OF e dot Inl])
      next
        case (Inr found)
        show ?thesis
        proof (cases "found = []")
          case True
          with Inr have p: "?p = Inr []" by simp
          show ?thesis
            by (cases "select env soup (tag col @ ''.'' @ css_class)")
               (auto simp: resolve_strategy2_empty [OF e dot p])
        next
          case False
          show ?thesis
            by (simp add: resolve_strategy2_found [OF e dot Inr False])
        qed
      qed
    qed
  qed
  from a b c show ?thesis
    unfolding Let_def by blast
qed

theorem strategies_short_circuit_witness:
  "find_all_class sample_soup (tag score_column) (\<lambda>v. v = ''card'') \<noteq> [] \<and>
   resolve_elements offline_env sample_soup score_column ''card'' =
     Inr ([score_element, rating_element], [strategy1_line 2]) \<and>
   resolve_elements sample_env sample_soup score_column ''more.card'' =
     Inr ([score_element, rating_element], [strategy1_line 0, strategy2_line 2]) \<and>
   find_all_class sample_soup (tag score_column) (\<lambda>v. v = ''more.card'') = [] \<and>
   CHR ''.'' \<in> set ''more.card'' \<and>
   partial_elements sample_env sample_soup (tag score_column) (split_dot ''more.card'') \<noteq> Inr []"
proof -
  have t: "tag score_column = ''div''" by (simp add: score_column_def)
  have e: "find_all_class sample_soup (tag score_column) (\<lambda>v. v = ''card'') =
      [score_element, rating_element]"
    by (simp add: t find_all_card)
  have 1: "resolve_elements offline_env sample_soup score_column ''card'' =
     Inr ([score_element, rating_element], [strategy1_line 2])"
    using strategies_short_circuit [of sample_soup score_column "''card''" sample_env]
    unfolding Let_def e by (simp add: numeral_2_eq_2)
  have 2: "find_all_class sample_soup (tag score_column) (\<lambda>v. v = ''more.card'') = [] \<and>
      CHR ''.'' \<in> set ''more.card''"
    using strategies_short_circuit [of sample_soup score_column "''more.card''" sample_env]
      resolve_more_card
    unfolding Let_def by auto
  have 3: "partial_elements sample_env sample_soup (tag score_column) (split_dot ''more.card'') \<noteq> Inr []"
    by (simp only: t partial_more_card) simp
  from e 1 2 3 resolve_more_card show ?thesis by simp
qed

end
